theory Spec2Isabelle
  imports Main "HOL-Library.Multiset"
begin

section \<open>Data model (types.ts)\<close>

text \<open>
  \<^verbatim>\<open>PieceColor = 'w' | 'b'\<close>, \<^verbatim>\<open>PieceType = 'p' | 'n' | 'b' | 'r' | 'q' | 'k'\<close> and the
  enum \<^verbatim>\<open>SoundType\<close>.
\<close>

datatype PieceColor = White | Black

datatype PieceType = Pawn | Knight | Bishop | Rook | Queen | King

datatype SoundType = MOVE | CAPTURE | CHECK | START | END

record Piece =
  p_type :: PieceType
  p_color :: PieceColor

text \<open>
  A move as the rules engine reports it (the verbose move object of chess.js; the
  interface \<^verbatim>\<open>Move\<close> of types.ts is its optional-field view). \<open>m_captured\<close> is
  present exactly when the engine flagged a capture.
\<close>

record Move =
  m_color :: PieceColor
  m_from :: string
  m_to :: string
  m_piece :: PieceType
  m_captured :: "PieceType option"
  m_promotion :: "PieceType option"
  m_flags :: string
  m_san :: string

text \<open>The argument of \<^verbatim>\<open>makeMove\<close>: \<^verbatim>\<open>{ from, to, promotion? }\<close>.\<close>

record MoveReq =
  q_from :: string
  q_to :: string
  q_promotion :: "string option"

text \<open>\<^verbatim>\<open>winner: PieceColor | 'draw' | null\<close>: the option is the \<^verbatim>\<open>null\<close>.\<close>

datatype Winner = Side PieceColor | Draw

record Captured =
  w :: "PieceType list"
  b :: "PieceType list"

record GameState =
  fen :: string
  turn :: PieceColor
  history :: "Move list"
  isCheck :: bool
  isCheckmate :: bool
  isDraw :: bool
  winner :: "Winner option"
  captured :: Captured

section \<open>The rules engine (chess.js), as far as the controller uses it\<close>

text \<open>
  Modelled from the spec: the rules engine is an external library (chess.js), imported by
  the component and absent from the repository. Its instance follows the contract of the
  rules-engine adapter (apply a move, undo, serialise the position, verbose history): it
  holds the current position, written as its FEN string, and the stack of moves made on
  this instance, each with the position it was made in (what undo restores).
  \<^verbatim>\<open>new Chess(fen)\<close> loads the position; a FEN string holds a position and no
  moves, so the instance starts with an empty move stack. \<^verbatim>\<open>new Chess()\<close> loads the
  standard starting position.
\<close>

record Chess =
  c_fen :: string
  c_history :: "(string \<times> Move) list"

definition DEFAULT_POSITION :: string where
  "DEFAULT_POSITION = ''rnbqkbnr/pppppppp/8/8/8/8/PPPPPPPP/RNBQKBNR w KQkq - 0 1''"

definition new_Chess :: "string \<Rightarrow> Chess" where
  "new_Chess f = \<lparr>c_fen = f, c_history = []\<rparr>"

text \<open>
  The rules of chess themselves are a parameter: which moves are legal in a position and
  what they lead to, whose turn it is, what stands on a square, the legal moves of a
  square, and the status predicates. Threefold repetition looks at the positions the
  instance has gone through, so it is a predicate of the instance.
\<close>

record Rules =
  r_move :: "string \<Rightarrow> MoveReq \<Rightarrow> (string \<times> Move) option"
  r_turn :: "string \<Rightarrow> PieceColor"
  r_get :: "string \<Rightarrow> string \<Rightarrow> Piece option"
  r_moves :: "string \<Rightarrow> string \<Rightarrow> Move list"
  r_isCheck :: "string \<Rightarrow> bool"
  r_isCheckmate :: "string \<Rightarrow> bool"
  r_isStalemate :: "string \<Rightarrow> bool"
  r_isInsufficientMaterial :: "string \<Rightarrow> bool"
  r_isDrawByFiftyMoves :: "string \<Rightarrow> bool"
  r_isThreefoldRepetition :: "Chess \<Rightarrow> bool"

text \<open>
  \<^verbatim>\<open>chess.move(m)\<close>: an illegal move throws (or yields null in older releases), which
  is \<open>None\<close> here; a legal one changes the position and pushes the move.
\<close>

definition chess_move :: "Rules \<Rightarrow> Chess \<Rightarrow> MoveReq \<Rightarrow> (Chess \<times> Move) option" where
  "chess_move R c mv =
     (case r_move R (c_fen c) mv of
        None \<Rightarrow> None
      | Some (f', m) \<Rightarrow> Some (\<lparr>c_fen = f', c_history = c_history c @ [(c_fen c, m)]\<rparr>, m))"

text \<open>
  \<^verbatim>\<open>chess.undo()\<close>: pops the last move of the instance and restores its position;
  with an empty stack it returns null and changes nothing.
\<close>

definition chess_undo :: "Chess \<Rightarrow> Chess \<times> Move option" where
  "chess_undo c =
     (if c_history c = [] then (c, None)
      else (\<lparr>c_fen = fst (last (c_history c)), c_history = butlast (c_history c)\<rparr>,
            Some (snd (last (c_history c)))))"

definition chess_history_verbose :: "Chess \<Rightarrow> Move list" where
  "chess_history_verbose c = map snd (c_history c)"

text \<open>\<^verbatim>\<open>chess.history()\<close>: the moves of the instance in algebraic notation.\<close>

definition chess_history :: "Chess \<Rightarrow> string list" where
  "chess_history c = map (\<lambda>e. m_san (snd e)) (c_history c)"

definition chess_turn :: "Rules \<Rightarrow> Chess \<Rightarrow> PieceColor" where
  "chess_turn R c = r_turn R (c_fen c)"

definition chess_get :: "Rules \<Rightarrow> Chess \<Rightarrow> string \<Rightarrow> Piece option" where
  "chess_get R c sq = r_get R (c_fen c) sq"

definition chess_moves :: "Rules \<Rightarrow> Chess \<Rightarrow> string \<Rightarrow> Move list" where
  "chess_moves R c sq = r_moves R (c_fen c) sq"

definition chess_isCheck :: "Rules \<Rightarrow> Chess \<Rightarrow> bool" where
  "chess_isCheck R c = r_isCheck R (c_fen c)"

definition chess_isCheckmate :: "Rules \<Rightarrow> Chess \<Rightarrow> bool" where
  "chess_isCheckmate R c = r_isCheckmate R (c_fen c)"

definition chess_isStalemate :: "Rules \<Rightarrow> Chess \<Rightarrow> bool" where
  "chess_isStalemate R c = r_isStalemate R (c_fen c)"

definition chess_isThreefoldRepetition :: "Rules \<Rightarrow> Chess \<Rightarrow> bool" where
  "chess_isThreefoldRepetition R c = r_isThreefoldRepetition R c"

text \<open>
  \<^verbatim>\<open>chess.isDraw()\<close> is the engine's union of its draw conditions: fifty-move rule,
  stalemate, insufficient material, threefold repetition.
\<close>

definition chess_isDraw :: "Rules \<Rightarrow> Chess \<Rightarrow> bool" where
  "chess_isDraw R c =
     (r_isDrawByFiftyMoves R (c_fen c) \<or> chess_isStalemate R c
      \<or> r_isInsufficientMaterial R (c_fen c) \<or> chess_isThreefoldRepetition R c)"

section \<open>The controller (the App component)\<close>

text \<open>
  The component's state hooks, and two logs for what it sends out: \<open>feedback\<close> is the
  sequence of \<^verbatim>\<open>playSound\<close> calls (the feedback events), \<open>audio\<close> the sequence of
  calls that reach \<^verbatim>\<open>audioService.play\<close> (none while muted).
\<close>

record App =
  game :: Chess
  selectedSquare :: "string option"
  validMoves :: "string list"
  gameState :: GameState
  analysis :: "string option"
  isAnalyzing :: bool
  isMuted :: bool
  feedback :: "SoundType list"
  audio :: "SoundType list"

definition initial_gameState :: GameState where
  "initial_gameState =
     \<lparr>fen = ''start'', turn = White, history = [], isCheck = False, isCheckmate = False,
      isDraw = False, winner = None, captured = \<lparr>w = [], b = []\<rparr>\<rparr>"

definition initial_App :: App where
  "initial_App =
     \<lparr>game = new_Chess DEFAULT_POSITION, selectedSquare = None, validMoves = [],
      gameState = initial_gameState, analysis = None, isAnalyzing = False, isMuted = False,
      feedback = [], audio = []\<rparr>"

definition playSound :: "SoundType \<Rightarrow> App \<Rightarrow> App" where
  "playSound t s =
     s\<lparr>feedback := feedback s @ [t],
       audio := (if \<not> isMuted s then audio s @ [t] else audio s)\<rparr>"

text \<open>
  The \<^verbatim>\<open>forEach\<close> of \<^verbatim>\<open>syncGameState\<close>: a capture by white goes to the list of
  black pieces, a capture by black to the list of white pieces.
\<close>

fun push_captured :: "Move list \<Rightarrow> Captured \<Rightarrow> Captured" where
  "push_captured [] cap = cap"
| "push_captured (m # ms) cap =
     push_captured ms
       (case m_captured m of
          None \<Rightarrow> cap
        | Some k \<Rightarrow>
            (if (if m_color m = White then Black else White) = White
             then cap\<lparr>w := w cap @ [k]\<rparr> else cap\<lparr>b := b cap @ [k]\<rparr>))"

definition syncGameState :: "Rules \<Rightarrow> Chess \<Rightarrow> GameState" where
  "syncGameState R chess =
     (let hist = chess_history_verbose chess;
          cap = push_captured hist \<lparr>w = [], b = []\<rparr>
      in \<lparr>fen = c_fen chess,
          turn = chess_turn R chess,
          history = hist,
          isCheck = chess_isCheck R chess,
          isCheckmate = chess_isCheckmate R chess,
          isDraw = (chess_isDraw R chess \<or> chess_isStalemate R chess
                    \<or> chess_isThreefoldRepetition R chess),
          winner = (if chess_isCheckmate R chess
                    then Some (Side (if chess_turn R chess = White then Black else White))
                    else if chess_isDraw R chess then Some Draw else None),
          captured = cap\<rparr>)"

definition makeMove :: "Rules \<Rightarrow> App \<Rightarrow> MoveReq \<Rightarrow> App \<times> Move option" where
  "makeMove R s mv =
     (case chess_move R (new_Chess (c_fen (game s))) mv of
        None \<Rightarrow> (s, None)
      | Some (chess, result) \<Rightarrow>
          (let s1 = s\<lparr>game := chess, gameState := syncGameState R chess\<rparr>;
               s2 = (if chess_isCheckmate R chess \<or> chess_isDraw R chess then playSound END s1
                     else if chess_isCheck R chess then playSound CHECK s1
                     else if m_captured result \<noteq> None then playSound CAPTURE s1
                     else playSound MOVE s1)
           in (s2\<lparr>selectedSquare := None, validMoves := [], analysis := None\<rparr>,
               Some result)))"

text \<open>
  \<^verbatim>\<open>if (selectedSquare)\<close> is JavaScript truthiness: null and the empty string are
  false.
\<close>

definition truthy :: "string option \<Rightarrow> bool" where
  "truthy x = (case x of None \<Rightarrow> False | Some t \<Rightarrow> t \<noteq> [])"

definition selectPiece :: "Rules \<Rightarrow> App \<Rightarrow> string \<Rightarrow> App" where
  "selectPiece R s square =
     (case chess_get R (game s) square of
        None \<Rightarrow> s\<lparr>selectedSquare := None, validMoves := []\<rparr>
      | Some piece \<Rightarrow>
          (if p_color piece = chess_turn R (game s)
           then s\<lparr>selectedSquare := Some square,
                  validMoves := map m_to (chess_moves R (game s) square)\<rparr>
           else s\<lparr>selectedSquare := None, validMoves := []\<rparr>))"

definition onSquareClick :: "Rules \<Rightarrow> App \<Rightarrow> string \<Rightarrow> App" where
  "onSquareClick R s square =
     (if isCheckmate (gameState s) \<or> isDraw (gameState s) then s
      else if selectedSquare s = Some square
      then s\<lparr>selectedSquare := None, validMoves := []\<rparr>
      else if truthy (selectedSquare s)
      then (case makeMove R s
                   \<lparr>q_from = the (selectedSquare s), q_to = square, q_promotion = Some ''q''\<rparr> of
              (s', Some m) \<Rightarrow> s'
            | (s', None) \<Rightarrow> selectPiece R s' square)
      else selectPiece R s square)"

definition resetGame :: "Rules \<Rightarrow> App \<Rightarrow> App" where
  "resetGame R s =
     (let newGame = new_Chess DEFAULT_POSITION
      in playSound START
           (s\<lparr>game := newGame, gameState := syncGameState R newGame, analysis := None,
              selectedSquare := None, validMoves := []\<rparr>))"

definition undoMove :: "Rules \<Rightarrow> App \<Rightarrow> App" where
  "undoMove R s =
     (let chess = fst (chess_undo (new_Chess (c_fen (game s))))
      in playSound MOVE
           (s\<lparr>game := chess, gameState := syncGameState R chess,
              selectedSquare := None, validMoves := []\<rparr>))"

text \<open>
  \<^verbatim>\<open>getCoachAnalysis\<close> is asynchronous: up to the \<^verbatim>\<open>await\<close> it sets the busy flag
  and sends the position and the move list of the render it was called in; when the
  answer arrives the continuation stores it. Other handlers may run in between.
\<close>

definition getCoachAnalysis_request :: "App \<Rightarrow> App \<times> (string \<times> string list)" where
  "getCoachAnalysis_request s =
     (s\<lparr>isAnalyzing := True\<rparr>, (c_fen (game s), chess_history (game s)))"

definition getCoachAnalysis_arrive :: "string \<Rightarrow> App \<Rightarrow> App" where
  "getCoachAnalysis_arrive result s = s\<lparr>analysis := Some result, isAnalyzing := False\<rparr>"

section \<open>A fragment of the rules of chess, for the scenarios\<close>

text \<open>
  The general theorems below hold for every rules engine. The scenarios need one: the
  rules of chess on the positions of three short lines, each position and move as the
  engine reports it (the en-passant field is \<open>-\<close>, no capture en passant being possible
  in any of them). Side to move and the piece on a square are read off the FEN string.
\<close>

fun split_on :: "char \<Rightarrow> string \<Rightarrow> string list" where
  "split_on d [] = [[]]"
| "split_on d (c # cs) =
     (if c = d then [] # split_on d cs
      else (case split_on d cs of [] \<Rightarrow> [[c]] | x # xs \<Rightarrow> (c # x) # xs))"

definition piece_of_char :: "char \<Rightarrow> Piece option" where
  "piece_of_char c =
     map_of
       [(CHR ''P'', \<lparr>p_type = Pawn, p_color = White\<rparr>),
        (CHR ''N'', \<lparr>p_type = Knight, p_color = White\<rparr>),
        (CHR ''B'', \<lparr>p_type = Bishop, p_color = White\<rparr>),
        (CHR ''R'', \<lparr>p_type = Rook, p_color = White\<rparr>),
        (CHR ''Q'', \<lparr>p_type = Queen, p_color = White\<rparr>),
        (CHR ''K'', \<lparr>p_type = King, p_color = White\<rparr>),
        (CHR ''p'', \<lparr>p_type = Pawn, p_color = Black\<rparr>),
        (CHR ''n'', \<lparr>p_type = Knight, p_color = Black\<rparr>),
        (CHR ''b'', \<lparr>p_type = Bishop, p_color = Black\<rparr>),
        (CHR ''r'', \<lparr>p_type = Rook, p_color = Black\<rparr>),
        (CHR ''q'', \<lparr>p_type = Queen, p_color = Black\<rparr>),
        (CHR ''k'', \<lparr>p_type = King, p_color = Black\<rparr>)] c"

fun expand_rank :: "string \<Rightarrow> Piece option list" where
  "expand_rank [] = []"
| "expand_rank (c # cs) =
     (if 49 \<le> (of_char c :: nat) \<and> (of_char c :: nat) \<le> 56
      then replicate ((of_char c :: nat) - 48) None else [piece_of_char c]) @ expand_rank cs"

definition fen_get :: "string \<Rightarrow> string \<Rightarrow> Piece option" where
  "fen_get f sq =
     (case sq of
        [fl, rk] \<Rightarrow>
          (let x = (of_char fl :: nat); y = (of_char rk :: nat);
               ranks = split_on CHR ''/'' (takeWhile (\<lambda>c. c \<noteq> CHR '' '') f)
           in if 97 \<le> x \<and> x \<le> 104 \<and> 49 \<le> y \<and> y \<le> 56 \<and> length ranks = 8
              then (let r = expand_rank (ranks ! (56 - y))
                    in if x - 97 < length r then r ! (x - 97) else None)
              else None)
      | _ \<Rightarrow> None)"

definition fen_turn :: "string \<Rightarrow> PieceColor" where
  "fen_turn f =
     (case dropWhile (\<lambda>c. c \<noteq> CHR '' '') f of
        _ # c # _ \<Rightarrow> (if c = CHR ''b'' then Black else White)
      | _ \<Rightarrow> White)"

definition mk_move ::
  "PieceColor \<Rightarrow> string \<Rightarrow> string \<Rightarrow> PieceType \<Rightarrow> PieceType option \<Rightarrow> string \<Rightarrow> string \<Rightarrow> Move" where
  "mk_move c f t p cap fl sn =
     \<lparr>m_color = c, m_from = f, m_to = t, m_piece = p, m_captured = cap, m_promotion = None,
      m_flags = fl, m_san = sn\<rparr>"

text \<open>
  The lines: 1. e4 e5 2. Bc4 Nc6 3. Qh5 Nf6 4. Qxf7 mate; 1. e4 d5 2. exd5 Qxd5;
  and 1. Nf3 Nf6 2. Ng1 Ng8 3. Nf3 Nf6 4. Ng1 Ng8, after which the starting position
  stands on the board for the third time. Moves outside the table are rejected.
\<close>

abbreviation pos_e4 :: string where
  "pos_e4 \<equiv> ''rnbqkbnr/pppppppp/8/8/4P3/8/PPPP1PPP/RNBQKBNR b KQkq - 0 1''"

abbreviation pos_e4_e5 :: string where
  "pos_e4_e5 \<equiv> ''rnbqkbnr/pppp1ppp/8/4p3/4P3/8/PPPP1PPP/RNBQKBNR w KQkq - 0 2''"

abbreviation pos_Bc4 :: string where
  "pos_Bc4 \<equiv> ''rnbqkbnr/pppp1ppp/8/4p3/2B1P3/8/PPPP1PPP/RNBQK1NR b KQkq - 1 2''"

abbreviation pos_Nc6 :: string where
  "pos_Nc6 \<equiv> ''r1bqkbnr/pppp1ppp/2n5/4p3/2B1P3/8/PPPP1PPP/RNBQK1NR w KQkq - 2 3''"

abbreviation pos_Qh5 :: string where
  "pos_Qh5 \<equiv> ''r1bqkbnr/pppp1ppp/2n5/4p2Q/2B1P3/8/PPPP1PPP/RNB1K1NR b KQkq - 3 3''"

abbreviation pos_Nf6 :: string where
  "pos_Nf6 \<equiv> ''r1bqkb1r/pppp1ppp/2n2n2/4p2Q/2B1P3/8/PPPP1PPP/RNB1K1NR w KQkq - 4 4''"

abbreviation pos_mate :: string where
  "pos_mate \<equiv> ''r1bqkb1r/pppp1Qpp/2n2n2/4p3/2B1P3/8/PPPP1PPP/RNB1K1NR b KQkq - 0 4''"

abbreviation pos_e4_d5 :: string where
  "pos_e4_d5 \<equiv> ''rnbqkbnr/ppp1pppp/8/3p4/4P3/8/PPPP1PPP/RNBQKBNR w KQkq - 0 2''"

abbreviation pos_exd5 :: string where
  "pos_exd5 \<equiv> ''rnbqkbnr/ppp1pppp/8/3P4/8/8/PPPP1PPP/RNBQKBNR b KQkq - 0 2''"

abbreviation pos_Qxd5 :: string where
  "pos_Qxd5 \<equiv> ''rnb1kbnr/ppp1pppp/8/3q4/8/8/PPPP1PPP/RNBQKBNR w KQkq - 0 3''"

abbreviation pos_N1 :: string where
  "pos_N1 \<equiv> ''rnbqkbnr/pppppppp/8/8/8/5N2/PPPPPPPP/RNBQKB1R b KQkq - 1 1''"

abbreviation pos_N2 :: string where
  "pos_N2 \<equiv> ''rnbqkb1r/pppppppp/5n2/8/8/5N2/PPPPPPPP/RNBQKB1R w KQkq - 2 2''"

abbreviation pos_N3 :: string where
  "pos_N3 \<equiv> ''rnbqkb1r/pppppppp/5n2/8/8/8/PPPPPPPP/RNBQKBNR b KQkq - 3 2''"

abbreviation pos_N4 :: string where
  "pos_N4 \<equiv> ''rnbqkbnr/pppppppp/8/8/8/8/PPPPPPPP/RNBQKBNR w KQkq - 4 3''"

abbreviation pos_N5 :: string where
  "pos_N5 \<equiv> ''rnbqkbnr/pppppppp/8/8/8/5N2/PPPPPPPP/RNBQKB1R b KQkq - 5 3''"

abbreviation pos_N6 :: string where
  "pos_N6 \<equiv> ''rnbqkb1r/pppppppp/5n2/8/8/5N2/PPPPPPPP/RNBQKB1R w KQkq - 6 4''"

abbreviation pos_N7 :: string where
  "pos_N7 \<equiv> ''rnbqkb1r/pppppppp/5n2/8/8/8/PPPPPPPP/RNBQKBNR b KQkq - 7 4''"

abbreviation pos_N8 :: string where
  "pos_N8 \<equiv> ''rnbqkbnr/pppppppp/8/8/8/8/PPPPPPPP/RNBQKBNR w KQkq - 8 5''"

abbreviation Nf3 :: Move where
  "Nf3 \<equiv> mk_move White ''g1'' ''f3'' Knight None ''n'' ''Nf3''"

abbreviation Nf6 :: Move where
  "Nf6 \<equiv> mk_move Black ''g8'' ''f6'' Knight None ''n'' ''Nf6''"

abbreviation Ng1 :: Move where
  "Ng1 \<equiv> mk_move White ''f3'' ''g1'' Knight None ''n'' ''Ng1''"

abbreviation Ng8 :: Move where
  "Ng8 \<equiv> mk_move Black ''f6'' ''g8'' Knight None ''n'' ''Ng8''"

definition line_moves :: "((string \<times> string \<times> string) \<times> (string \<times> Move)) list" where
  "line_moves =
     [((DEFAULT_POSITION, ''e2'', ''e4''),
        (pos_e4, mk_move White ''e2'' ''e4'' Pawn None ''b'' ''e4'')),
      ((pos_e4, ''e7'', ''e5''),
        (pos_e4_e5, mk_move Black ''e7'' ''e5'' Pawn None ''b'' ''e5'')),
      ((pos_e4_e5, ''f1'', ''c4''),
        (pos_Bc4, mk_move White ''f1'' ''c4'' Bishop None ''n'' ''Bc4'')),
      ((pos_Bc4, ''b8'', ''c6''),
        (pos_Nc6, mk_move Black ''b8'' ''c6'' Knight None ''n'' ''Nc6'')),
      ((pos_Nc6, ''d1'', ''h5''),
        (pos_Qh5, mk_move White ''d1'' ''h5'' Queen None ''n'' ''Qh5'')),
      ((pos_Qh5, ''g8'', ''f6''),
        (pos_Nf6, mk_move Black ''g8'' ''f6'' Knight None ''n'' ''Nf6'')),
      ((pos_Nf6, ''h5'', ''f7''),
        (pos_mate, mk_move White ''h5'' ''f7'' Queen (Some Pawn) ''c'' ''Qxf7#'')),
      ((pos_e4, ''d7'', ''d5''),
        (pos_e4_d5, mk_move Black ''d7'' ''d5'' Pawn None ''b'' ''d5'')),
      ((pos_e4_d5, ''e4'', ''d5''),
        (pos_exd5, mk_move White ''e4'' ''d5'' Pawn (Some Pawn) ''c'' ''exd5'')),
      ((pos_exd5, ''d8'', ''d5''),
        (pos_Qxd5, mk_move Black ''d8'' ''d5'' Queen (Some Pawn) ''c'' ''Qxd5'')),
      ((DEFAULT_POSITION, ''g1'', ''f3''), (pos_N1, Nf3)),
      ((pos_N1, ''g8'', ''f6''), (pos_N2, Nf6)),
      ((pos_N2, ''f3'', ''g1''), (pos_N3, Ng1)),
      ((pos_N3, ''f6'', ''g8''), (pos_N4, Ng8)),
      ((pos_N4, ''g1'', ''f3''), (pos_N5, Nf3)),
      ((pos_N5, ''g8'', ''f6''), (pos_N6, Nf6)),
      ((pos_N6, ''f3'', ''g1''), (pos_N7, Ng1)),
      ((pos_N7, ''f6'', ''g8''), (pos_N8, Ng8))]"

text \<open>The legal moves of a square, for the squares that the scenarios select.\<close>

definition line_square_moves :: "((string \<times> string) \<times> Move list) list" where
  "line_square_moves =
     [((DEFAULT_POSITION, ''e2''),
        [mk_move White ''e2'' ''e3'' Pawn None ''n'' ''e3'',
         mk_move White ''e2'' ''e4'' Pawn None ''b'' ''e4''])]"

text \<open>
  Threefold repetition, as the engine decides it: the position of the instance, move
  counters apart (the FEN string without its last two fields), has occurred three times
  among the positions the instance has gone through since it was loaded.
\<close>

definition strip_field :: "string \<Rightarrow> string" where
  "strip_field cs = drop 1 (dropWhile (\<lambda>c. c \<noteq> CHR '' '') cs)"

definition fen_key :: "string \<Rightarrow> string" where
  "fen_key f = rev (strip_field (strip_field (rev f)))"

definition seen_three_times :: "Chess \<Rightarrow> bool" where
  "seen_three_times c =
     (3 \<le> length (filter (\<lambda>f. fen_key f = fen_key (c_fen c))
                       (map fst (c_history c) @ [c_fen c])))"

definition line_rules :: Rules where
  "line_rules =
     \<lparr>r_move = (\<lambda>f mv. map_of line_moves (f, q_from mv, q_to mv)),
      r_turn = fen_turn,
      r_get = fen_get,
      r_moves = (\<lambda>f sq. case map_of line_square_moves (f, sq) of None \<Rightarrow> [] | Some ms \<Rightarrow> ms),
      r_isCheck = (\<lambda>f. f \<in> set [pos_mate]),
      r_isCheckmate = (\<lambda>f. f \<in> set [pos_mate]),
      r_isStalemate = (\<lambda>f. False),
      r_isInsufficientMaterial = (\<lambda>f. False),
      r_isDrawByFiftyMoves = (\<lambda>f. False),
      r_isThreefoldRepetition = seen_three_times\<rparr>"

text \<open>The user's gestures, and a run of the controller over a sequence of them.\<close>

datatype Gesture = Click string | Undo | NewGame | ToggleMute

fun gesture :: "Rules \<Rightarrow> App \<Rightarrow> Gesture \<Rightarrow> App" where
  "gesture R s (Click sq) = onSquareClick R s sq"
| "gesture R s Undo = undoMove R s"
| "gesture R s NewGame = resetGame R s"
| "gesture R s ToggleMute = s\<lparr>isMuted := \<not> isMuted s\<rparr>"

definition gestures :: "Rules \<Rightarrow> App \<Rightarrow> Gesture list \<Rightarrow> App" where
  "gestures R s gs = foldl (gesture R) s gs"

text \<open>
  A sequence of move attempts: the state after them and the moves that were applied, in
  order (the rejected attempts leave no trace).
\<close>

fun makeMoves :: "Rules \<Rightarrow> App \<Rightarrow> MoveReq list \<Rightarrow> App \<times> Move list" where
  "makeMoves R s [] = (s, [])"
| "makeMoves R s (mv # mvs) =
     (case makeMove R s mv of
        (s', None) \<Rightarrow> makeMoves R s' mvs
      | (s', Some m) \<Rightarrow> (case makeMoves R s' mvs of (s'', ms) \<Rightarrow> (s'', m # ms)))"

definition req :: "string \<Rightarrow> string \<Rightarrow> MoveReq" where
  "req f t = \<lparr>q_from = f, q_to = t, q_promotion = Some ''q''\<rparr>"

text \<open>
  One engine instance that makes the moves of a game in turn and so keeps the whole move
  stack: the engine's own view of a game.
\<close>

fun chess_play :: "Rules \<Rightarrow> Chess \<Rightarrow> MoveReq list \<Rightarrow> Chess" where
  "chess_play R c [] = c"
| "chess_play R c (mv # mvs) =
     (case chess_move R c mv of
        None \<Rightarrow> chess_play R c mvs
      | Some (c', m) \<Rightarrow> chess_play R c' mvs)"

text \<open>
  What a capture list is measured against: the piece kinds of the one side that a
  sequence of applied moves records as captured, that is, taken by moves of the other
  side, as a multiset.
\<close>

definition lost_pieces :: "PieceColor \<Rightarrow> Move list \<Rightarrow> PieceType multiset" where
  "lost_pieces side ms =
     mset (List.map_filter (\<lambda>m. if m_color m \<noteq> side then m_captured m else None) ms)"

abbreviation scholars_opening :: "MoveReq list" where
  "scholars_opening \<equiv>
     [req ''e2'' ''e4'', req ''e7'' ''e5'', req ''f1'' ''c4'', req ''b8'' ''c6'',
      req ''d1'' ''h5'', req ''g8'' ''f6'']"

abbreviation centre_counter :: "MoveReq list" where
  "centre_counter \<equiv>
     [req ''e2'' ''e4'', req ''d7'' ''d5'', req ''e4'' ''d5'', req ''d8'' ''d5'']"

abbreviation knight_shuffle :: "MoveReq list" where
  "knight_shuffle \<equiv>
     [req ''g1'' ''f3'', req ''g8'' ''f6'', req ''f3'' ''g1'', req ''f6'' ''g8'',
      req ''g1'' ''f3'', req ''g8'' ''f6'', req ''f3'' ''g1'']"

text \<open>One of the two fixed answers of \<^verbatim>\<open>analyzePosition\<close>, as a sample advisory text.\<close>

abbreviation coach_text :: string where
  "coach_text \<equiv> ''The AI coach is currently taking a break.''"

section \<open>What one move attempt does\<close>

lemma makeMove_rejected:
  "r_move R (c_fen (game s)) mv = None \<Longrightarrow> makeMove R s mv = (s, None)"
  by (simp add: makeMove_def chess_move_def new_Chess_def)

lemma makeMove_step:
  assumes "c_fen (game s) = f" and "r_move R f mv = Some (f', m)"
  shows "\<exists>s'. makeMove R s mv = (s', Some m) \<and> c_fen (game s') = f' \<and>
           gameState s' = syncGameState R \<lparr>c_fen = f', c_history = [(f, m)]\<rparr> \<and>
           analysis s' = None \<and> selectedSquare s' = None \<and> validMoves s' = [] \<and>
           isMuted s' = isMuted s \<and> isAnalyzing s' = isAnalyzing s"
  using assms
  by (simp add: makeMove_def chess_move_def new_Chess_def Let_def playSound_def)

lemma makeMove_cases:
  "(r_move R (c_fen (game s)) mv = None \<and> makeMove R s mv = (s, None)) \<or>
   (\<exists>f' m s'. r_move R (c_fen (game s)) mv = Some (f', m) \<and> makeMove R s mv = (s', Some m))"
proof (cases "r_move R (c_fen (game s)) mv")
  case None
  then show ?thesis by (simp add: makeMove_rejected)
next
  case (Some fm)
  obtain f' m where "fm = (f', m)" by (cases fm)
  with Some makeMove_step [OF refl, of R s mv f' m] show ?thesis by auto
qed

text \<open>
  Each successful attempt starts from an instance reloaded from the FEN string, so the
  snapshot it rebuilds lists that one move and nothing before it.
\<close>

lemma makeMove_history:
  "makeMove R s mv = (s', Some m) \<Longrightarrow> history (gameState s') = [m]"
  by (auto simp: makeMove_def chess_move_def new_Chess_def Let_def playSound_def
        syncGameState_def chess_history_verbose_def split: option.splits if_splits)

lemma makeMove_clears_analysis:
  "makeMove R s mv = (s', Some m) \<Longrightarrow>
     analysis s' = None \<and> selectedSquare s' = None \<and> validMoves s' = []"
  by (auto simp: makeMove_def Let_def playSound_def split: option.splits if_splits)

lemma resetGame_clears_analysis:
  "analysis (resetGame R s) = None \<and> selectedSquare (resetGame R s) = None \<and>
   validMoves (resetGame R s) = [] \<and> feedback (resetGame R s) = feedback s @ [START] \<and>
   history (gameState (resetGame R s)) = []"
  by (simp add: resetGame_def Let_def playSound_def syncGameState_def
        chess_history_verbose_def new_Chess_def)

section \<open>The capture lists agree with the snapshot's own move list\<close>

lemma lost_pieces_Cons:
  "lost_pieces side (m # ms) =
     (case (if m_color m \<noteq> side then m_captured m else None) of
        None \<Rightarrow> lost_pieces side ms
      | Some k \<Rightarrow> {#k#} + lost_pieces side ms)"
  by (simp add: lost_pieces_def List.map_filter_simps split: option.split)

lemma push_captured_mset:
  "mset (w (push_captured ms cap)) = mset (w cap) + lost_pieces White ms \<and>
   mset (b (push_captured ms cap)) = mset (b cap) + lost_pieces Black ms"
proof (induction ms arbitrary: cap)
  case Nil
  show ?case by (simp add: lost_pieces_def List.map_filter_simps)
next
  case (Cons m ms)
  show ?case
    by (cases "m_captured m"; cases "m_color m") (simp_all add: Cons.IH lost_pieces_Cons)
qed

lemma syncGameState_captured:
  "mset (w (captured (syncGameState R c))) = lost_pieces White (history (syncGameState R c)) \<and>
   mset (b (captured (syncGameState R c))) = lost_pieces Black (history (syncGameState R c))"
  by (simp add: syncGameState_def Let_def push_captured_mset)

section \<open>The moves of the lines\<close>

lemma line_lookup: "r_move line_rules f (req x y) = map_of line_moves (f, x, y)"
  by (simp add: line_rules_def req_def)

lemma initial_fen: "c_fen (game initial_App) = DEFAULT_POSITION"
  by (simp add: initial_App_def new_Chess_def)

lemma line_e4:
  "r_move line_rules DEFAULT_POSITION (req ''e2'' ''e4'')
     = Some (pos_e4, mk_move White ''e2'' ''e4'' Pawn None ''b'' ''e4'')"
  by (simp add: line_lookup line_moves_def DEFAULT_POSITION_def)

lemma line_e5:
  "r_move line_rules pos_e4 (req ''e7'' ''e5'')
     = Some (pos_e4_e5, mk_move Black ''e7'' ''e5'' Pawn None ''b'' ''e5'')"
  by (simp add: line_lookup line_moves_def DEFAULT_POSITION_def)

lemma line_Bc4:
  "r_move line_rules pos_e4_e5 (req ''f1'' ''c4'')
     = Some (pos_Bc4, mk_move White ''f1'' ''c4'' Bishop None ''n'' ''Bc4'')"
  by (simp add: line_lookup line_moves_def DEFAULT_POSITION_def)

lemma line_Nc6:
  "r_move line_rules pos_Bc4 (req ''b8'' ''c6'')
     = Some (pos_Nc6, mk_move Black ''b8'' ''c6'' Knight None ''n'' ''Nc6'')"
  by (simp add: line_lookup line_moves_def DEFAULT_POSITION_def)

lemma line_Qh5:
  "r_move line_rules pos_Nc6 (req ''d1'' ''h5'')
     = Some (pos_Qh5, mk_move White ''d1'' ''h5'' Queen None ''n'' ''Qh5'')"
  by (simp add: line_lookup line_moves_def DEFAULT_POSITION_def)

lemma line_Nf6:
  "r_move line_rules pos_Qh5 (req ''g8'' ''f6'')
     = Some (pos_Nf6, mk_move Black ''g8'' ''f6'' Knight None ''n'' ''Nf6'')"
  by (simp add: line_lookup line_moves_def DEFAULT_POSITION_def)

lemma line_Qxf7:
  "r_move line_rules pos_Nf6 (req ''h5'' ''f7'')
     = Some (pos_mate, mk_move White ''h5'' ''f7'' Queen (Some Pawn) ''c'' ''Qxf7#'')"
  by (simp add: line_lookup line_moves_def DEFAULT_POSITION_def)

lemma line_d5:
  "r_move line_rules pos_e4 (req ''d7'' ''d5'')
     = Some (pos_e4_d5, mk_move Black ''d7'' ''d5'' Pawn None ''b'' ''d5'')"
  by (simp add: line_lookup line_moves_def DEFAULT_POSITION_def)

lemma line_exd5:
  "r_move line_rules pos_e4_d5 (req ''e4'' ''d5'')
     = Some (pos_exd5, mk_move White ''e4'' ''d5'' Pawn (Some Pawn) ''c'' ''exd5'')"
  by (simp add: line_lookup line_moves_def DEFAULT_POSITION_def)

lemma line_Qxd5:
  "r_move line_rules pos_exd5 (req ''d8'' ''d5'')
     = Some (pos_Qxd5, mk_move Black ''d8'' ''d5'' Queen (Some Pawn) ''c'' ''Qxd5'')"
  by (simp add: line_lookup line_moves_def DEFAULT_POSITION_def)

lemma line_N1: "r_move line_rules DEFAULT_POSITION (req ''g1'' ''f3'') = Some (pos_N1, Nf3)"
  by (simp add: line_lookup line_moves_def DEFAULT_POSITION_def)

lemma line_N2: "r_move line_rules pos_N1 (req ''g8'' ''f6'') = Some (pos_N2, Nf6)"
  by (simp add: line_lookup line_moves_def DEFAULT_POSITION_def)

lemma line_N3: "r_move line_rules pos_N2 (req ''f3'' ''g1'') = Some (pos_N3, Ng1)"
  by (simp add: line_lookup line_moves_def DEFAULT_POSITION_def)

lemma line_N4: "r_move line_rules pos_N3 (req ''f6'' ''g8'') = Some (pos_N4, Ng8)"
  by (simp add: line_lookup line_moves_def DEFAULT_POSITION_def)

lemma line_N5: "r_move line_rules pos_N4 (req ''g1'' ''f3'') = Some (pos_N5, Nf3)"
  by (simp add: line_lookup line_moves_def DEFAULT_POSITION_def)

lemma line_N6: "r_move line_rules pos_N5 (req ''g8'' ''f6'') = Some (pos_N6, Nf6)"
  by (simp add: line_lookup line_moves_def DEFAULT_POSITION_def)

lemma line_N7: "r_move line_rules pos_N6 (req ''f3'' ''g1'') = Some (pos_N7, Ng1)"
  by (simp add: line_lookup line_moves_def DEFAULT_POSITION_def)

lemma line_N8: "r_move line_rules pos_N7 (req ''f6'' ''g8'') = Some (pos_N8, Ng8)"
  by (simp add: line_lookup line_moves_def DEFAULT_POSITION_def)


section \<open>The snapshot and the capture lists\<close>

text \<open>
  C1 (the code departs from the claim). The claim: after any sequence of applied moves the
  capture lists of the snapshot hold, as multisets, the captured piece kinds of the
  whole game, each on the side opposite the mover. After 1. e4 d5 2. exd5 Qxd5 the
  applied moves record a black pawn taken by White and a white pawn taken by Black, but
  the snapshot lists the last move only and its list of captured black pieces is empty.
\<close>

theorem captured_forgets_earlier_moves:
  "map m_san (snd (makeMoves line_rules initial_App centre_counter))
     = [''e4'', ''d5'', ''exd5'', ''Qxd5''] \<and>
   lost_pieces Black (snd (makeMoves line_rules initial_App centre_counter)) = {#Pawn#} \<and>
   lost_pieces White (snd (makeMoves line_rules initial_App centre_counter)) = {#Pawn#} \<and>
   captured (gameState (fst (makeMoves line_rules initial_App centre_counter)))
     = \<lparr>w = [Pawn], b = []\<rparr> \<and>
   mset (b (captured (gameState (fst (makeMoves line_rules initial_App centre_counter)))))
     \<noteq> lost_pieces Black (snd (makeMoves line_rules initial_App centre_counter)) \<and>
   map m_san (history (gameState (fst (makeMoves line_rules initial_App centre_counter))))
     = [''Qxd5'']"
proof -
  obtain s1 where s1: "makeMove line_rules initial_App (req ''e2'' ''e4'')
        = (s1, Some (mk_move White ''e2'' ''e4'' Pawn None ''b'' ''e4''))"
      "c_fen (game s1) = pos_e4"
    using makeMove_step [OF initial_fen line_e4] by blast
  obtain s2 where s2: "makeMove line_rules s1 (req ''d7'' ''d5'')
        = (s2, Some (mk_move Black ''d7'' ''d5'' Pawn None ''b'' ''d5''))"
      "c_fen (game s2) = pos_e4_d5"
    using makeMove_step [OF s1(2) line_d5] by blast
  obtain s3 where s3: "makeMove line_rules s2 (req ''e4'' ''d5'')
        = (s3, Some (mk_move White ''e4'' ''d5'' Pawn (Some Pawn) ''c'' ''exd5''))"
      "c_fen (game s3) = pos_exd5"
    using makeMove_step [OF s2(2) line_exd5] by blast
  obtain s4 where s4: "makeMove line_rules s3 (req ''d8'' ''d5'')
        = (s4, Some (mk_move Black ''d8'' ''d5'' Queen (Some Pawn) ''c'' ''Qxd5''))"
      "gameState s4 = syncGameState line_rules
         \<lparr>c_fen = pos_Qxd5,
          c_history = [(pos_exd5, mk_move Black ''d8'' ''d5'' Queen (Some Pawn) ''c'' ''Qxd5'')]\<rparr>"
    using makeMove_step [OF s3(2) line_Qxd5] by blast
  have run: "makeMoves line_rules initial_App centre_counter
     = (s4, [mk_move White ''e2'' ''e4'' Pawn None ''b'' ''e4'',
             mk_move Black ''d7'' ''d5'' Pawn None ''b'' ''d5'',
             mk_move White ''e4'' ''d5'' Pawn (Some Pawn) ''c'' ''exd5'',
             mk_move Black ''d8'' ''d5'' Queen (Some Pawn) ''c'' ''Qxd5''])"
    by (simp add: s1(1) s2(1) s3(1) s4(1))
  show ?thesis
    unfolding run fst_conv snd_conv s4(2)
    by (simp add: mk_move_def lost_pieces_def List.map_filter_simps syncGameState_def
          chess_history_verbose_def Let_def)
qed

text \<open>
  C5 (the code departs from the claim). The claim: after e2-e4 and e7-e5 from the starting
  position the snapshot has a history of length 2, empty capture lists, White to move and
  no check. Both moves are applied, the capture lists are empty, White is to move and
  there is no check, but the history of the snapshot has length 1.
\<close>

theorem history_length_after_e4_e5:
  "length (snd (makeMoves line_rules initial_App [req ''e2'' ''e4'', req ''e7'' ''e5''])) = 2 \<and>
   length (history (gameState (fst (makeMoves line_rules initial_App
       [req ''e2'' ''e4'', req ''e7'' ''e5''])))) = 1 \<and>
   captured (gameState (fst (makeMoves line_rules initial_App
       [req ''e2'' ''e4'', req ''e7'' ''e5'']))) = \<lparr>w = [], b = []\<rparr> \<and>
   turn (gameState (fst (makeMoves line_rules initial_App
       [req ''e2'' ''e4'', req ''e7'' ''e5'']))) = White \<and>
   \<not> isCheck (gameState (fst (makeMoves line_rules initial_App
       [req ''e2'' ''e4'', req ''e7'' ''e5''])))"
proof -
  obtain s1 where s1: "makeMove line_rules initial_App (req ''e2'' ''e4'')
        = (s1, Some (mk_move White ''e2'' ''e4'' Pawn None ''b'' ''e4''))"
      "c_fen (game s1) = pos_e4"
    using makeMove_step [OF initial_fen line_e4] by blast
  obtain s2 where s2: "makeMove line_rules s1 (req ''e7'' ''e5'')
        = (s2, Some (mk_move Black ''e7'' ''e5'' Pawn None ''b'' ''e5''))"
      "gameState s2 = syncGameState line_rules
         \<lparr>c_fen = pos_e4_e5,
          c_history = [(pos_e4, mk_move Black ''e7'' ''e5'' Pawn None ''b'' ''e5'')]\<rparr>"
    using makeMove_step [OF s1(2) line_e5] by blast
  have run: "makeMoves line_rules initial_App [req ''e2'' ''e4'', req ''e7'' ''e5'']
     = (s2, [mk_move White ''e2'' ''e4'' Pawn None ''b'' ''e4'',
             mk_move Black ''e7'' ''e5'' Pawn None ''b'' ''e5''])"
    by (simp add: s1(1) s2(1))
  show ?thesis
    unfolding run fst_conv snd_conv s2(2)
    by (simp add: mk_move_def syncGameState_def chess_history_verbose_def Let_def
          chess_turn_def chess_isCheck_def line_rules_def fen_turn_def)
qed



section \<open>Undo\<close>

text \<open>
  undoMove calls the engine's undo on an instance it has just reloaded from the FEN
  string, whose move list is empty: the position stays, the instance and the snapshot
  come out with an empty move list, and the advisory text is not touched.
\<close>

lemma undoMove_game: "game (undoMove R s) = new_Chess (c_fen (game s))"
  by (simp add: undoMove_def Let_def chess_undo_def new_Chess_def playSound_def)

lemma undoMove_analysis: "analysis (undoMove R s) = analysis s"
  by (simp add: undoMove_def Let_def playSound_def)

lemma undoMove_feedback: "feedback (undoMove R s) = feedback s @ [MOVE]"
  by (simp add: undoMove_def Let_def playSound_def)

lemma e4_played:
  "c_fen (game (fst (makeMove line_rules initial_App (req ''e2'' ''e4'')))) = pos_e4 \<and>
   map m_san (history (gameState (fst (makeMove line_rules initial_App (req ''e2'' ''e4'')))))
     = [''e4'']"
proof -
  obtain s1 where s1: "makeMove line_rules initial_App (req ''e2'' ''e4'')
        = (s1, Some (mk_move White ''e2'' ''e4'' Pawn None ''b'' ''e4''))"
      "c_fen (game s1) = pos_e4"
    using makeMove_step [OF initial_fen line_e4] by blast
  from makeMove_history [OF s1(1)] s1 show ?thesis by (simp add: mk_move_def)
qed

text \<open>
  C2 (as stated it fails). The claim: undo pops the last applied move, rebuilds the
  snapshot, clears selection and advisory text and emits the move event; with an empty
  history it does nothing and emits nothing. In a new game, with no move made, undo emits
  the move event and so changes the state. After 1. e4 and an advisory text, undo leaves
  the position after 1. e4 and the advisory text in place.
\<close>

theorem undo_on_empty_history_emits:
  "history (gameState initial_App) = [] \<and> c_history (game initial_App) = [] \<and>
   feedback initial_App = [] \<and>
   feedback (undoMove line_rules initial_App) = [MOVE] \<and>
   undoMove line_rules initial_App \<noteq> initial_App \<and>
   c_fen (game (undoMove line_rules (getCoachAnalysis_arrive coach_text
       (fst (makeMove line_rules initial_App (req ''e2'' ''e4'')))))) = pos_e4 \<and>
   analysis (undoMove line_rules (getCoachAnalysis_arrive coach_text
       (fst (makeMove line_rules initial_App (req ''e2'' ''e4''))))) = Some coach_text"
proof -
  have a: "history (gameState initial_App) = [] \<and> c_history (game initial_App) = [] \<and>
      feedback initial_App = []"
    by (simp add: initial_App_def initial_gameState_def new_Chess_def)
  have b: "feedback (undoMove line_rules initial_App) = [MOVE]"
    by (simp add: undoMove_feedback a)
  have c: "undoMove line_rules initial_App \<noteq> initial_App"
  proof
    assume "undoMove line_rules initial_App = initial_App"
    then have "feedback (undoMove line_rules initial_App) = feedback initial_App" by simp
    with a b show False by simp
  qed
  have d: "c_fen (game (undoMove line_rules (getCoachAnalysis_arrive coach_text
       (fst (makeMove line_rules initial_App (req ''e2'' ''e4'')))))) = pos_e4"
    using e4_played by (simp add: undoMove_game new_Chess_def getCoachAnalysis_arrive_def)
  have e: "analysis (undoMove line_rules (getCoachAnalysis_arrive coach_text
       (fst (makeMove line_rules initial_App (req ''e2'' ''e4''))))) = Some coach_text"
    by (simp add: undoMove_analysis getCoachAnalysis_arrive_def)
  from a b c d e show ?thesis by blast
qed

text \<open>
  C2, amended. In every state, with or without earlier moves, undoMove rebuilds the
  snapshot from the engine instance it leaves, clears the selected square and the
  legal-destination list, and emits exactly the generic move event; the sound is played
  unless muted.
\<close>

theorem undoMove_effect:
  "gameState (undoMove R s) = syncGameState R (game (undoMove R s)) \<and>
   selectedSquare (undoMove R s) = None \<and> validMoves (undoMove R s) = [] \<and>
   feedback (undoMove R s) = feedback s @ [MOVE] \<and>
   audio (undoMove R s) = (if isMuted s then audio s else audio s @ [MOVE])"
  by (simp add: undoMove_def Let_def playSound_def)

theorem undoMove_effect_witness:
  "feedback (undoMove line_rules (fst (makeMove line_rules
       (fst (makeMoves line_rules initial_App scholars_opening)) (req ''h5'' ''f7''))))
     = feedback (fst (makeMove line_rules
         (fst (makeMoves line_rules initial_App scholars_opening)) (req ''h5'' ''f7'')))
       @ [MOVE] \<and>
   selectedSquare (undoMove line_rules (fst (makeMove line_rules
       (fst (makeMoves line_rules initial_App scholars_opening)) (req ''h5'' ''f7''))))
     = None"
  using undoMove_effect [of line_rules "fst (makeMove line_rules
       (fst (makeMoves line_rules initial_App scholars_opening)) (req ''h5'' ''f7''))"]
  by blast

text \<open>
  C7 (the code departs from the claim). The claim: the advisory text is cleared on every
  successful move, on every undo and on reset. After 1. e4 and an advisory text, a
  further move and a reset clear the text, but undo keeps it.
\<close>

theorem undo_keeps_advisory_text:
  "analysis (getCoachAnalysis_arrive coach_text
       (fst (makeMove line_rules initial_App (req ''e2'' ''e4'')))) = Some coach_text \<and>
   analysis (fst (makeMove line_rules (getCoachAnalysis_arrive coach_text
       (fst (makeMove line_rules initial_App (req ''e2'' ''e4'')))) (req ''e7'' ''e5'')))
     = None \<and>
   analysis (resetGame line_rules (getCoachAnalysis_arrive coach_text
       (fst (makeMove line_rules initial_App (req ''e2'' ''e4''))))) = None \<and>
   analysis (undoMove line_rules (getCoachAnalysis_arrive coach_text
       (fst (makeMove line_rules initial_App (req ''e2'' ''e4''))))) = Some coach_text"
proof -
  have at: "c_fen (game (getCoachAnalysis_arrive coach_text
       (fst (makeMove line_rules initial_App (req ''e2'' ''e4''))))) = pos_e4"
    using e4_played by (simp add: getCoachAnalysis_arrive_def)
  obtain s2 where s2: "makeMove line_rules (getCoachAnalysis_arrive coach_text
       (fst (makeMove line_rules initial_App (req ''e2'' ''e4'')))) (req ''e7'' ''e5'')
        = (s2, Some (mk_move Black ''e7'' ''e5'' Pawn None ''b'' ''e5''))"
      "analysis s2 = None"
    using makeMove_step [OF at line_e5] by blast
  show ?thesis
    by (simp add: s2 resetGame_clears_analysis)
       (simp add: undoMove_def Let_def playSound_def getCoachAnalysis_arrive_def)
qed

section \<open>Clicks\<close>

lemma start_e2:
  "r_get line_rules DEFAULT_POSITION ''e2'' = Some \<lparr>p_type = Pawn, p_color = White\<rparr> \<and>
   r_turn line_rules DEFAULT_POSITION = White \<and>
   map m_to (r_moves line_rules DEFAULT_POSITION ''e2'') = [''e3'', ''e4'']"
  by (simp add: line_rules_def fen_get_def fen_turn_def piece_of_char_def
        DEFAULT_POSITION_def line_square_moves_def mk_move_def eval_nat_numeral nth_append)

lemma click_e2:
  assumes "c_fen (game s) = DEFAULT_POSITION"
    and "\<not> isCheckmate (gameState s)" and "\<not> isDraw (gameState s)"
    and "selectedSquare s = None"
  shows "onSquareClick line_rules s ''e2''
           = s\<lparr>selectedSquare := Some ''e2'', validMoves := [''e3'', ''e4'']\<rparr>"
  using assms start_e2
  by (simp add: onSquareClick_def truthy_def selectPiece_def chess_get_def chess_turn_def
        chess_moves_def)

text \<open>
  C10. With a square selected and the game not over, a click on any other square first
  makes a move attempt from the selected square to the clicked one, with promotion to a
  queen; only if the engine rejects it does the click go on to select or deselect. The
  stored legal-destination list plays no part: the click gives the same state whatever
  that list holds.
\<close>

theorem click_attempts_without_consulting_validMoves:
  assumes "\<not> isCheckmate (gameState s)" and "\<not> isDraw (gameState s)"
    and "selectedSquare s = Some sel" and "sel \<noteq> []" and "sq \<noteq> sel"
  shows "onSquareClick R s sq =
           (case makeMove R s \<lparr>q_from = sel, q_to = sq, q_promotion = Some ''q''\<rparr> of
              (s', Some m) \<Rightarrow> s'
            | (s', None) \<Rightarrow> selectPiece R s' sq) \<and>
         onSquareClick R (s\<lparr>validMoves := vm\<rparr>) sq = onSquareClick R s sq"
proof
  show first: "onSquareClick R s sq =
           (case makeMove R s \<lparr>q_from = sel, q_to = sq, q_promotion = Some ''q''\<rparr> of
              (s', Some m) \<Rightarrow> s'
            | (s', None) \<Rightarrow> selectPiece R s' sq)"
    using assms by (auto simp: onSquareClick_def truthy_def)
  show "onSquareClick R (s\<lparr>validMoves := vm\<rparr>) sq = onSquareClick R s sq"
    using assms
    by (auto simp: onSquareClick_def truthy_def makeMove_def selectPiece_def Let_def
          playSound_def chess_get_def chess_turn_def chess_moves_def
          split: option.splits)
qed

theorem click_attempts_without_consulting_validMoves_witness:
  "selectedSquare ((onSquareClick line_rules initial_App ''e2'')\<lparr>validMoves := []\<rparr>)
     = Some ''e2'' \<and>
   ''e4'' \<notin> set (validMoves ((onSquareClick line_rules initial_App ''e2'')\<lparr>validMoves := []\<rparr>)) \<and>
   c_fen (game (onSquareClick line_rules
       ((onSquareClick line_rules initial_App ''e2'')\<lparr>validMoves := []\<rparr>) ''e4'')) = pos_e4 \<and>
   onSquareClick line_rules ((onSquareClick line_rules initial_App ''e2'')\<lparr>validMoves := []\<rparr>) ''e4''
     = onSquareClick line_rules (onSquareClick line_rules initial_App ''e2'') ''e4''"
proof -
  have init: "\<not> isCheckmate (gameState initial_App)" "\<not> isDraw (gameState initial_App)"
      "selectedSquare initial_App = None"
    by (simp_all add: initial_App_def initial_gameState_def)
  define s where "s = onSquareClick line_rules initial_App ''e2''"
  have s_eq: "s = initial_App\<lparr>selectedSquare := Some ''e2'', validMoves := [''e3'', ''e4'']\<rparr>"
    unfolding s_def using click_e2 [OF initial_fen init] .
  have h: "\<not> isCheckmate (gameState s)" "\<not> isDraw (gameState s)"
      "selectedSquare s = Some ''e2''" "''e2'' \<noteq> []" "''e4'' \<noteq> ''e2''"
    using init by (simp_all add: s_eq)
  have at: "c_fen (game s) = DEFAULT_POSITION"
    by (simp add: s_eq initial_fen)
  obtain s1 where s1: "makeMove line_rules s (req ''e2'' ''e4'')
        = (s1, Some (mk_move White ''e2'' ''e4'' Pawn None ''b'' ''e4''))"
      "c_fen (game s1) = pos_e4"
    using makeMove_step [OF at line_e4] by blast
  from click_attempts_without_consulting_validMoves [OF h, of line_rules "[]"]
  have "onSquareClick line_rules s ''e4'' = s1"
    and "onSquareClick line_rules (s\<lparr>validMoves := []\<rparr>) ''e4'' = onSquareClick line_rules s ''e4''"
    using s1(1) by (simp_all add: req_def)
  with h s1(2) show ?thesis
    unfolding s_def [symmetric] by simp
qed

section \<open>The advisory request\<close>

text \<open>
  C9 (as stated it fails). The claim: a result that arrives after the position changed is
  discarded. A request is made in the starting position; the user then plays 1. e4 with
  two clicks; the answer arrives and is stored as the advisory text, against the position
  after 1. e4.
\<close>

theorem stale_advice_is_stored:
  "fst (snd (getCoachAnalysis_request initial_App)) = DEFAULT_POSITION \<and>
   c_fen (game (getCoachAnalysis_arrive coach_text
       (gestures line_rules (fst (getCoachAnalysis_request initial_App))
          [Click ''e2'', Click ''e4'']))) = pos_e4 \<and>
   pos_e4 \<noteq> DEFAULT_POSITION \<and>
   analysis (getCoachAnalysis_arrive coach_text
       (gestures line_rules (fst (getCoachAnalysis_request initial_App))
          [Click ''e2'', Click ''e4''])) = Some coach_text"
proof -
  define s0 where "s0 = fst (getCoachAnalysis_request initial_App)"
  have s0_eq: "s0 = initial_App\<lparr>isAnalyzing := True\<rparr>"
    by (simp add: s0_def getCoachAnalysis_request_def)
  have init: "c_fen (game s0) = DEFAULT_POSITION" "\<not> isCheckmate (gameState s0)"
      "\<not> isDraw (gameState s0)" "selectedSquare s0 = None"
    by (simp_all add: s0_eq initial_App_def initial_gameState_def new_Chess_def)
  define s where "s = onSquareClick line_rules s0 ''e2''"
  have s_eq: "s = s0\<lparr>selectedSquare := Some ''e2'', validMoves := [''e3'', ''e4'']\<rparr>"
    unfolding s_def using click_e2 [OF init] .
  have at: "c_fen (game s) = DEFAULT_POSITION"
    by (simp add: s_eq init)
  obtain s1 where s1: "makeMove line_rules s (req ''e2'' ''e4'')
        = (s1, Some (mk_move White ''e2'' ''e4'' Pawn None ''b'' ''e4''))"
      "c_fen (game s1) = pos_e4"
    using makeMove_step [OF at line_e4] by blast
  have click: "onSquareClick line_rules s ''e4'' = s1"
    using init s1(1) by (simp add: onSquareClick_def truthy_def s_eq req_def)
  have run: "gestures line_rules s0 [Click ''e2'', Click ''e4''] = s1"
    by (simp add: gestures_def s_def [symmetric] click)
  have rq: "fst (snd (getCoachAnalysis_request initial_App)) = DEFAULT_POSITION"
    by (simp add: getCoachAnalysis_request_def initial_fen)
  show ?thesis
    unfolding s0_def [symmetric] run
    by (simp add: rq s1(2) getCoachAnalysis_arrive_def DEFAULT_POSITION_def)
qed

text \<open>
  C9, amended. A request carries the position and the move list of the moment it is
  made. When its result arrives it is stored as the advisory text and the busy flag is
  cleared, whatever the user did in between; nothing compares the position of the request
  with the current one.
\<close>

theorem advice_stored_on_arrival:
  "snd (getCoachAnalysis_request s) = (c_fen (game s), chess_history (game s)) \<and>
   analysis (getCoachAnalysis_arrive r (gestures R (fst (getCoachAnalysis_request s)) gs))
     = Some r \<and>
   \<not> isAnalyzing (getCoachAnalysis_arrive r (gestures R (fst (getCoachAnalysis_request s)) gs))"
  by (simp add: getCoachAnalysis_request_def getCoachAnalysis_arrive_def)

theorem advice_stored_on_arrival_witness:
  "analysis (getCoachAnalysis_arrive coach_text
       (gestures line_rules (fst (getCoachAnalysis_request initial_App))
          [Click ''e2'', Click ''e4'', Undo])) = Some coach_text"
  using advice_stored_on_arrival [of initial_App coach_text line_rules
      "[Click ''e2'', Click ''e4'', Undo]"]
  by blast

section \<open>The snapshot never lists more than the last move\<close>

text \<open>
  Whatever the user does from a new game, the move list of the snapshot has at most one
  entry: every handler rebuilds it from an instance reloaded from the FEN string.
\<close>

lemma onSquareClick_history:
  "length (history (gameState s)) \<le> 1 \<Longrightarrow>
     length (history (gameState (onSquareClick R s sq))) \<le> 1"
proof -
  assume le: "length (history (gameState s)) \<le> 1"
  let ?mv = "\<lparr>q_from = the (selectedSquare s), q_to = sq, q_promotion = Some ''q''\<rparr>"
  from makeMove_cases [of R s ?mv]
  consider "makeMove R s ?mv = (s, None)"
    | m s' where "makeMove R s ?mv = (s', Some m)" by blast
  then show ?thesis
  proof cases
    case 1
    with le show ?thesis
      by (simp add: onSquareClick_def selectPiece_def split: option.split)
  next
    case 2
    from makeMove_history [OF 2] 2 le show ?thesis
      by (simp add: onSquareClick_def selectPiece_def split: option.split)
  qed
qed

lemma gesture_history:
  "length (history (gameState s)) \<le> 1 \<Longrightarrow>
     length (history (gameState (gesture R s g))) \<le> 1"
proof (cases g)
  case (Click sq)
  assume "length (history (gameState s)) \<le> 1"
  then show ?thesis unfolding Click gesture.simps by (rule onSquareClick_history)
next
  case Undo
  show ?thesis
    by (simp add: Undo undoMove_def Let_def playSound_def syncGameState_def
          chess_history_verbose_def chess_undo_def new_Chess_def)
next
  case NewGame
  show ?thesis
    by (simp add: NewGame resetGame_def Let_def playSound_def syncGameState_def
          chess_history_verbose_def new_Chess_def)
next
  case ToggleMute
  assume "length (history (gameState s)) \<le> 1"
  then show ?thesis by (simp add: ToggleMute)
qed

lemma gestures_history:
  "length (history (gameState s)) \<le> 1 \<Longrightarrow>
     length (history (gameState (gestures R s gs))) \<le> 1"
  unfolding gestures_def
proof (induction gs arbitrary: s)
  case Nil
  then show ?case by simp
next
  case (Cons g gs)
  from gesture_history [OF Cons.prems] have "length (history (gameState (gesture R s g))) \<le> 1" .
  from Cons.IH [OF this] show ?case by simp
qed

lemma snapshot_history_at_most_one:
  "length (history (gameState (gestures R initial_App gs))) \<le> 1"
  by (rule gestures_history) (simp add: initial_App_def initial_gameState_def)

section \<open>Rejected attempts\<close>








section \<open>Finished games\<close>

lemma scholars_mate_played:
  "makeMove line_rules (fst (makeMoves line_rules initial_App scholars_opening))
       (req ''h5'' ''f7'')
     = (fst (makeMove line_rules (fst (makeMoves line_rules initial_App scholars_opening))
               (req ''h5'' ''f7'')),
        Some (mk_move White ''h5'' ''f7'' Queen (Some Pawn) ''c'' ''Qxf7#'')) \<and>
   c_fen (game (fst (makeMove line_rules
       (fst (makeMoves line_rules initial_App scholars_opening)) (req ''h5'' ''f7'')))) = pos_mate \<and>
   isCheckmate (gameState (fst (makeMove line_rules
       (fst (makeMoves line_rules initial_App scholars_opening)) (req ''h5'' ''f7''))))"
proof -
  obtain s1 where s1: "makeMove line_rules initial_App (req ''e2'' ''e4'')
        = (s1, Some (mk_move White ''e2'' ''e4'' Pawn None ''b'' ''e4''))"
      "c_fen (game s1) = pos_e4"
    using makeMove_step [OF initial_fen line_e4] by blast
  obtain s2 where s2: "makeMove line_rules s1 (req ''e7'' ''e5'')
        = (s2, Some (mk_move Black ''e7'' ''e5'' Pawn None ''b'' ''e5''))"
      "c_fen (game s2) = pos_e4_e5"
    using makeMove_step [OF s1(2) line_e5] by blast
  obtain s3 where s3: "makeMove line_rules s2 (req ''f1'' ''c4'')
        = (s3, Some (mk_move White ''f1'' ''c4'' Bishop None ''n'' ''Bc4''))"
      "c_fen (game s3) = pos_Bc4"
    using makeMove_step [OF s2(2) line_Bc4] by blast
  obtain s4 where s4: "makeMove line_rules s3 (req ''b8'' ''c6'')
        = (s4, Some (mk_move Black ''b8'' ''c6'' Knight None ''n'' ''Nc6''))"
      "c_fen (game s4) = pos_Nc6"
    using makeMove_step [OF s3(2) line_Nc6] by blast
  obtain s5 where s5: "makeMove line_rules s4 (req ''d1'' ''h5'')
        = (s5, Some (mk_move White ''d1'' ''h5'' Queen None ''n'' ''Qh5''))"
      "c_fen (game s5) = pos_Qh5"
    using makeMove_step [OF s4(2) line_Qh5] by blast
  obtain s6 where s6: "makeMove line_rules s5 (req ''g8'' ''f6'') = (s6, Some Nf6)"
      "c_fen (game s6) = pos_Nf6"
    using makeMove_step [OF s5(2) line_Nf6] by blast
  obtain s7 where s7: "makeMove line_rules s6 (req ''h5'' ''f7'')
        = (s7, Some (mk_move White ''h5'' ''f7'' Queen (Some Pawn) ''c'' ''Qxf7#''))"
      "c_fen (game s7) = pos_mate"
      "gameState s7 = syncGameState line_rules
         \<lparr>c_fen = pos_mate,
          c_history = [(pos_Nf6, mk_move White ''h5'' ''f7'' Queen (Some Pawn) ''c'' ''Qxf7#'')]\<rparr>"
    using makeMove_step [OF s6(2) line_Qxf7] by blast
  have run: "fst (makeMoves line_rules initial_App scholars_opening) = s6"
    by (simp add: s1(1) s2(1) s3(1) s4(1) s5(1) s6(1))
  have mate: "isCheckmate (gameState s7)"
    unfolding s7(3)
    by (simp add: syncGameState_def Let_def chess_isCheckmate_def line_rules_def)
  show ?thesis
    unfolding run using mate by (simp add: s7(1) s7(2))
qed

lemma mate_e8:
  "r_get line_rules pos_mate ''e8'' = Some \<lparr>p_type = King, p_color = Black\<rparr> \<and>
   r_turn line_rules pos_mate = Black"
  by (simp add: line_rules_def fen_get_def fen_turn_def piece_of_char_def
        eval_nat_numeral nth_append)

text \<open>
  C8. Once the snapshot records a checkmate or a draw, no further move is accepted: a
  move attempt is made only by a click, and every click, whatever is selected, and
  every sequence of clicks leaves the whole state as it is.
\<close>

theorem terminal_clicks_change_nothing:
  assumes "isCheckmate (gameState s) \<or> isDraw (gameState s)"
  shows "onSquareClick R s sq = s \<and> gestures R s (map Click sqs) = s"
proof
  show one: "onSquareClick R s sq = s" for sq
    using assms by (simp add: onSquareClick_def)
  show "gestures R s (map Click sqs) = s"
    unfolding gestures_def by (induction sqs) (simp_all add: one)
qed

text \<open>
  After Scholar's mate the black king stands on e8 and Black is to move, so that a click on
  e8 would select it in a running game; here it does nothing, also with a square
  selected.
\<close>

theorem terminal_clicks_change_nothing_witness:
  "isCheckmate (gameState (fst (makeMove line_rules
       (fst (makeMoves line_rules initial_App scholars_opening)) (req ''h5'' ''f7'')))) \<and>
   selectedSquare (selectPiece line_rules (fst (makeMove line_rules
       (fst (makeMoves line_rules initial_App scholars_opening)) (req ''h5'' ''f7''))) ''e8'')
     = Some ''e8'' \<and>
   onSquareClick line_rules (fst (makeMove line_rules
       (fst (makeMoves line_rules initial_App scholars_opening)) (req ''h5'' ''f7''))) ''e8''
     = fst (makeMove line_rules
         (fst (makeMoves line_rules initial_App scholars_opening)) (req ''h5'' ''f7'')) \<and>
   gestures line_rules (fst (makeMove line_rules
       (fst (makeMoves line_rules initial_App scholars_opening)) (req ''h5'' ''f7'')))
       (map Click [''e8'', ''e7''])
     = fst (makeMove line_rules
         (fst (makeMoves line_rules initial_App scholars_opening)) (req ''h5'' ''f7''))"
proof -
  define M where "M = fst (makeMove line_rules
       (fst (makeMoves line_rules initial_App scholars_opening)) (req ''h5'' ''f7''))"
  from scholars_mate_played have mate: "isCheckmate (gameState M)"
    and at: "c_fen (game M) = pos_mate" unfolding M_def by blast+
  have sel: "selectedSquare (selectPiece line_rules M ''e8'') = Some ''e8''"
    using mate_e8 by (simp add: selectPiece_def chess_get_def chess_turn_def at)
  from mate have fin: "isCheckmate (gameState M) \<or> isDraw (gameState M)" by blast
  from terminal_clicks_change_nothing [OF fin, of line_rules "''e8''" "[''e8'', ''e7'']"]
  have "onSquareClick line_rules M ''e8'' = M"
    and "gestures line_rules M (map Click [''e8'', ''e7'']) = M" by blast+
  with mate sel show ?thesis unfolding M_def by blast
qed

section \<open>The feedback event\<close>

text \<open>
  A successful move emits exactly one event, chosen by first match over what the engine
  instance of that move reports: end for a checkmate or a draw, else check, else capture,
  else move. The instance is the one reloaded from the FEN string, with the move just
  made as its only move.
\<close>

lemma makeMove_feedback:
  assumes "r_move R (c_fen (game s)) mv = Some (f', m)"
  shows "feedback (fst (makeMove R s mv)) = feedback s @
           [if r_isCheckmate R f' \<or>
               chess_isDraw R \<lparr>c_fen = f', c_history = [(c_fen (game s), m)]\<rparr> then END
            else if r_isCheck R f' then CHECK
            else if m_captured m \<noteq> None then CAPTURE
            else MOVE]"
  using assms
  by (simp add: makeMove_def chess_move_def new_Chess_def Let_def playSound_def
        chess_isCheckmate_def chess_isCheck_def)

lemma makeMove_snapshot_flags:
  assumes "r_move R (c_fen (game s)) mv = Some (f', m)"
  shows "isCheckmate (gameState (fst (makeMove R s mv))) = r_isCheckmate R f' \<and>
         isCheck (gameState (fst (makeMove R s mv))) = r_isCheck R f' \<and>
         isDraw (gameState (fst (makeMove R s mv)))
           = chess_isDraw R \<lparr>c_fen = f', c_history = [(c_fen (game s), m)]\<rparr>"
  using assms
  by (auto simp: makeMove_def chess_move_def new_Chess_def Let_def playSound_def
        syncGameState_def chess_isCheckmate_def chess_isCheck_def chess_isDraw_def)

lemma chess_move_step:
  "r_move R (c_fen c) mv = Some (f', m) \<Longrightarrow>
     chess_move R c mv = Some (\<lparr>c_fen = f', c_history = c_history c @ [(c_fen c, m)]\<rparr>, m)"
  by (simp add: chess_move_def)

lemma shuffle_on_one_instance:
  "chess_play line_rules (new_Chess DEFAULT_POSITION) (knight_shuffle @ [req ''f6'' ''g8''])
     = \<lparr>c_fen = pos_N8,
        c_history = [(DEFAULT_POSITION, Nf3), (pos_N1, Nf6), (pos_N2, Ng1), (pos_N3, Ng8),
                     (pos_N4, Nf3), (pos_N5, Nf6), (pos_N6, Ng1), (pos_N7, Ng8)]\<rparr>"
proof -
  have m1: "chess_move line_rules (new_Chess DEFAULT_POSITION) (req ''g1'' ''f3'')
      = Some (\<lparr>c_fen = pos_N1, c_history = [(DEFAULT_POSITION, Nf3)]\<rparr>, Nf3)"
    using chess_move_step [of line_rules "new_Chess DEFAULT_POSITION" _ pos_N1 Nf3] line_N1
    by (simp add: new_Chess_def)
  have step: "r_move line_rules f (req x y) = Some (f', m) \<Longrightarrow>
      chess_move line_rules \<lparr>c_fen = f, c_history = h\<rparr> (req x y)
        = Some (\<lparr>c_fen = f', c_history = h @ [(f, m)]\<rparr>, m)" for f x y f' m h
    using chess_move_step [of line_rules "\<lparr>c_fen = f, c_history = h\<rparr>" "req x y" f' m]
    by simp
  show ?thesis
    by (simp add: m1 step [OF line_N2] step [OF line_N3] step [OF line_N4] step [OF line_N5]
          step [OF line_N6] step [OF line_N7] step [OF line_N8])
qed

lemma shuffle_keys:
  "fen_key DEFAULT_POSITION = fen_key pos_N8" "fen_key pos_N4 = fen_key pos_N8"
  "fen_key pos_N1 \<noteq> fen_key pos_N8" "fen_key pos_N2 \<noteq> fen_key pos_N8"
  "fen_key pos_N3 \<noteq> fen_key pos_N8" "fen_key pos_N5 \<noteq> fen_key pos_N8"
  "fen_key pos_N6 \<noteq> fen_key pos_N8" "fen_key pos_N7 \<noteq> fen_key pos_N8"
  by (simp_all add: fen_key_def strip_field_def DEFAULT_POSITION_def)

text \<open>
  C4 (the code departs from the claim). The claim: a successful move that ends the game,
  by checkmate or by any draw condition, emits the end event. In the game 1. Nf3 Nf6
  2. Ng1 Ng8 3. Nf3 Nf6 4. Ng1 Ng8 the last move brings the starting position for the
  third time, and the engine, on an instance that made all eight moves, reports a draw.
  The controller applies that move, records no draw and emits the move event.
\<close>

theorem repetition_draw_plays_move:
  "chess_isThreefoldRepetition line_rules
       (chess_play line_rules (new_Chess DEFAULT_POSITION)
          (knight_shuffle @ [req ''f6'' ''g8''])) \<and>
   chess_isDraw line_rules
       (chess_play line_rules (new_Chess DEFAULT_POSITION)
          (knight_shuffle @ [req ''f6'' ''g8''])) \<and>
   snd (makeMove line_rules (fst (makeMoves line_rules initial_App knight_shuffle))
          (req ''f6'' ''g8'')) = Some Ng8 \<and>
   c_fen (game (fst (makeMove line_rules
       (fst (makeMoves line_rules initial_App knight_shuffle)) (req ''f6'' ''g8'')))) = pos_N8 \<and>
   \<not> isDraw (gameState (fst (makeMove line_rules
       (fst (makeMoves line_rules initial_App knight_shuffle)) (req ''f6'' ''g8'')))) \<and>
   feedback (fst (makeMove line_rules
       (fst (makeMoves line_rules initial_App knight_shuffle)) (req ''f6'' ''g8'')))
     = feedback (fst (makeMoves line_rules initial_App knight_shuffle)) @ [MOVE]"
proof -
  have three: "seen_three_times
       \<lparr>c_fen = pos_N8,
        c_history = [(DEFAULT_POSITION, Nf3), (pos_N1, Nf6), (pos_N2, Ng1), (pos_N3, Ng8),
                     (pos_N4, Nf3), (pos_N5, Nf6), (pos_N6, Ng1), (pos_N7, Ng8)]\<rparr>"
    by (simp add: seen_three_times_def shuffle_keys)
  have rep: "chess_isThreefoldRepetition line_rules
       (chess_play line_rules (new_Chess DEFAULT_POSITION)
          (knight_shuffle @ [req ''f6'' ''g8'']))"
    unfolding shuffle_on_one_instance chess_isThreefoldRepetition_def
    using three by (simp add: line_rules_def)
  then have draw: "chess_isDraw line_rules
       (chess_play line_rules (new_Chess DEFAULT_POSITION)
          (knight_shuffle @ [req ''f6'' ''g8'']))"
    by (simp add: chess_isDraw_def)
  obtain s1 where s1: "makeMove line_rules initial_App (req ''g1'' ''f3'') = (s1, Some Nf3)"
      "c_fen (game s1) = pos_N1"
    using makeMove_step [OF initial_fen line_N1] by blast
  obtain s2 where s2: "makeMove line_rules s1 (req ''g8'' ''f6'') = (s2, Some Nf6)"
      "c_fen (game s2) = pos_N2"
    using makeMove_step [OF s1(2) line_N2] by blast
  obtain s3 where s3: "makeMove line_rules s2 (req ''f3'' ''g1'') = (s3, Some Ng1)"
      "c_fen (game s3) = pos_N3"
    using makeMove_step [OF s2(2) line_N3] by blast
  obtain s4 where s4: "makeMove line_rules s3 (req ''f6'' ''g8'') = (s4, Some Ng8)"
      "c_fen (game s4) = pos_N4"
    using makeMove_step [OF s3(2) line_N4] by blast
  obtain s5 where s5: "makeMove line_rules s4 (req ''g1'' ''f3'') = (s5, Some Nf3)"
      "c_fen (game s5) = pos_N5"
    using makeMove_step [OF s4(2) line_N5] by blast
  obtain s6 where s6: "makeMove line_rules s5 (req ''g8'' ''f6'') = (s6, Some Nf6)"
      "c_fen (game s6) = pos_N6"
    using makeMove_step [OF s5(2) line_N6] by blast
  obtain s7 where s7: "makeMove line_rules s6 (req ''f3'' ''g1'') = (s7, Some Ng1)"
      "c_fen (game s7) = pos_N7"
    using makeMove_step [OF s6(2) line_N7] by blast
  obtain s8 where s8: "makeMove line_rules s7 (req ''f6'' ''g8'') = (s8, Some Ng8)"
      "c_fen (game s8) = pos_N8"
    using makeMove_step [OF s7(2) line_N8] by blast
  have run: "fst (makeMoves line_rules initial_App knight_shuffle) = s7"
    by (simp add: s1(1) s2(1) s3(1) s4(1) s5(1) s6(1) s7(1))
  have l8: "r_move line_rules (c_fen (game s7)) (req ''f6'' ''g8'') = Some (pos_N8, Ng8)"
    unfolding s7(2) by (rule line_N8)
  have two: "\<not> seen_three_times \<lparr>c_fen = pos_N8, c_history = [(pos_N7, Ng8)]\<rparr>"
    by (simp add: seen_three_times_def)
  have nodraw: "\<not> chess_isDraw line_rules \<lparr>c_fen = pos_N8, c_history = [(c_fen (game s7), Ng8)]\<rparr>"
    unfolding s7(2) using two
    by (simp add: chess_isDraw_def chess_isStalemate_def chess_isThreefoldRepetition_def
          line_rules_def)
  have quiet: "\<not> r_isCheckmate line_rules pos_N8" "\<not> r_isCheck line_rules pos_N8"
      "m_captured Ng8 = None"
    by (simp_all add: line_rules_def mk_move_def)
  from makeMove_feedback [OF l8] nodraw quiet
  have fb: "feedback (fst (makeMove line_rules s7 (req ''f6'' ''g8''))) = feedback s7 @ [MOVE]"
    by simp
  from makeMove_snapshot_flags [OF l8] nodraw
  have nd: "\<not> isDraw (gameState (fst (makeMove line_rules s7 (req ''f6'' ''g8''))))"
    by simp
  show ?thesis
    unfolding run using rep draw fb nd by (simp add: s8)
qed

end
